theory Spec2Isabelle
  imports Main
begin

section \<open>Python values used by the KML output module\<close>

text \<open>
  A Python \<open>str\<close> is a sequence of Unicode code points and a Python \<open>bytes\<close> object is a
  sequence of integers below 256; both are lists of naturals here.  \<open>ustr\<close> turns a HOL
  string literal (ASCII) into the code points it denotes.
\<close>

type_synonym ustring = "nat list"
type_synonym bytes = "nat list"

definition ustr :: "string \<Rightarrow> ustring" where
  "ustr s = map of_char s"

datatype py_exception = AttributeError | TypeError | ValueError | UnicodeDecodeError

text \<open>
  The module looks at a coordinate in two ways only: it compares it with \<open>None\<close> and it
  formats it with \<open>'{0!s}'\<close>, which is \<open>str(value)\<close>.  A coordinate that is not \<open>None\<close> is
  therefore the text \<open>str\<close> returns for it, together with its truth value (which the module
  never consults).  The float \<open>0.0\<close> is \<open>\<lparr>py_str = ''0.0'', py_bool = False\<rparr>\<close>.
\<close>

record pyobj =
  py_str :: ustring
  py_bool :: bool

text \<open>
  What \<open>WriteEventBody\<close> reads from its four arguments:
  \<^item> \<open>event_identifier\<close>: the outcome of \<open>event.GetIdentifier().CopyToString()\<close>, the string or the
    exception raised;
  \<^item> \<open>latitude\<close>, \<open>longitude\<close>: \<open>getattr(event_data, ..., None)\<close>, with \<open>None\<close> for an absent
    attribute as well as for one set to \<open>None\<close>;
  \<^item> \<open>description\<close>: the string returned by \<open>GetFormattedEvent(event, event_data,
    event_data_stream, event_tag)\<close>.
\<close>

record event_record =
  event_identifier :: "py_exception + ustring"
  latitude :: "pyobj option"
  longitude :: "pyobj option"
  description :: ustring

section \<open>xml.etree.ElementTree: elements and \<open>tostring\<close>\<close>

datatype Element =
  Element (tag: ustring) (attrib: "(ustring \<times> ustring) list") (etext: "ustring option")
    (children: "Element list") (tail: "ustring option")

text \<open>\<open>str.replace(old, new)\<close> for a pattern \<open>old\<close> of one character.\<close>

definition replace :: "nat \<Rightarrow> ustring \<Rightarrow> ustring \<Rightarrow> ustring" where
  "replace old new s = concat (map (\<lambda>c. if c = old then new else [c]) s)"

text \<open>\<open>_escape_cdata\<close>: the ampersand first, then the two angle brackets.\<close>

definition escape_cdata :: "ustring \<Rightarrow> ustring" where
  "escape_cdata text0 =
     (let text1 = (if 38 \<in> set text0 then replace 38 (ustr ''&amp;'') text0 else text0);
          text2 = (if 60 \<in> set text1 then replace 60 (ustr ''&lt;'') text1 else text1);
          text3 = (if 62 \<in> set text2 then replace 62 (ustr ''&gt;'') text2 else text2)
      in text3)"

text \<open>\<open>_escape_attrib\<close>; the module sets no attribute, so no claim depends on it.\<close>

definition escape_attrib :: "ustring \<Rightarrow> ustring" where
  "escape_attrib text0 =
     (let text1 = (if 38 \<in> set text0 then replace 38 (ustr ''&amp;'') text0 else text0);
          text2 = (if 60 \<in> set text1 then replace 60 (ustr ''&lt;'') text1 else text1);
          text3 = (if 62 \<in> set text2 then replace 62 (ustr ''&gt;'') text2 else text2);
          text4 = (if 34 \<in> set text3 then replace 34 (ustr ''&quot;'') text3 else text3);
          text5 = (if 13 \<in> set text4 then replace 13 (ustr ''&#13;'') text4 else text4);
          text6 = (if 10 \<in> set text5 then replace 10 (ustr ''&#10;'') text5 else text5);
          text7 = (if 9 \<in> set text6 then replace 9 (ustr ''&#09;'') text6 else text6)
      in text7)"

text \<open>
  \<open>_serialize_xml\<close> for elements whose tags carry no namespace, with
  \<open>short_empty_elements=True\<close>: an element with neither text nor children is written
  \<open><tag />\<close>.  \<open>if text:\<close> holds for a string that is neither \<open>None\<close> nor empty.
\<close>

definition truthy :: "ustring option \<Rightarrow> bool" where
  "truthy t = (case t of None \<Rightarrow> False | Some s \<Rightarrow> s \<noteq> [])"

fun serialize_xml :: "Element \<Rightarrow> ustring" where
  "serialize_xml (Element tg items text0 elems tail0) =
     ustr ''<'' @ tg @
     concat (map (\<lambda>(k, v). ustr '' '' @ k @ [61, 34] @ escape_attrib v @ [34]) items) @
     (if truthy text0 \<or> elems \<noteq> []
      then ustr ''>'' @ (case text0 of None \<Rightarrow> [] | Some t \<Rightarrow> escape_cdata t) @
           concat (map serialize_xml elems) @ ustr ''</'' @ tg @ ustr ''>''
      else ustr '' />'') @
     (case tail0 of None \<Rightarrow> [] | Some t \<Rightarrow> escape_cdata t)"

text \<open>
  \<open>tostring(element)\<close> with its default encoding \<open>us-ascii\<close>: no XML declaration, and the
  text goes through the \<open>xmlcharrefreplace\<close> error handler, which writes a character
  outside ASCII as \<open>&#N;\<close> with \<open>N\<close> in decimal.
\<close>

fun decimal :: "nat \<Rightarrow> ustring" where
  "decimal n = (if n < 10 then [48 + n] else decimal (n div 10) @ [48 + n mod 10])"

declare decimal.simps [simp del]

definition xmlcharrefreplace :: "nat \<Rightarrow> bytes" where
  "xmlcharrefreplace c = (if c < 128 then [c] else ustr ''&#'' @ decimal c @ ustr '';'')"

definition encode_ascii :: "ustring \<Rightarrow> bytes" where
  "encode_ascii s = concat (map xmlcharrefreplace s)"

definition tostring :: "Element \<Rightarrow> bytes" where
  "tostring element = encode_ascii (serialize_xml element)"

section \<open>The output module\<close>

text \<open>
  The state of the module: \<open>encoding\<close> is \<open>self._output_mediator.encoding\<close>; \<open>decode\<close> is
  what \<open>codecs.decode(\<cdot>, encoding)\<close> computes (Python finds the codec by its name in a
  registry that is not part of this module); \<open>sink\<close> holds the texts handed to \<open>WriteText\<close>
  so far, one entry for each call.
\<close>

record KMLOutputModule =
  encoding :: ustring
  decode :: "bytes \<Rightarrow> py_exception + ustring"
  sink :: "ustring list"

text \<open>
  Modelled from the spec: \<open>WriteText\<close> of \<open>interface.TextFileOutputModule\<close>, which is not
  among the sources.  The sink accepts text and keeps it in the order written.
\<close>

definition WriteText :: "KMLOutputModule \<Rightarrow> ustring \<Rightarrow> KMLOutputModule" where
  "WriteText self text0 = self\<lparr>sink := sink self @ [text0]\<rparr>"

text \<open>Lines 47 to 67 of \<open>WriteEventBody\<close>: the element tree of one placemark.\<close>

definition placemark_xml_element :: "ustring \<Rightarrow> ustring \<Rightarrow> pyobj \<Rightarrow> pyobj \<Rightarrow> Element" where
  "placemark_xml_element identifier_string description_text lon lat =
     (let name_xml_element =
            Element (ustr ''name'') [] (Some identifier_string) [] None;
          description_xml_element =
            Element (ustr ''description'') [] (Some (description_text @ [10])) [] None;
          coordinates_xml_element =
            Element (ustr ''coordinates'') [] (Some (py_str lon @ ustr '','' @ py_str lat)) [] None;
          point_xml_element =
            Element (ustr ''Point'') [] None [coordinates_xml_element] None
      in Element (ustr ''Placemark'') [] None
           [name_xml_element, description_xml_element, point_xml_element] None)"

definition WriteEventBody :: "KMLOutputModule \<Rightarrow> event_record \<Rightarrow> py_exception + KMLOutputModule" where
  "WriteEventBody self ev =
     (case latitude ev of
        None \<Rightarrow> Inr self
      | Some lat \<Rightarrow>
         (case longitude ev of
            None \<Rightarrow> Inr self
          | Some lon \<Rightarrow>
             (case event_identifier ev of
                Inl exn \<Rightarrow> Inl exn
              | Inr identifier_string \<Rightarrow>
                 (let xml_string =
                        tostring (placemark_xml_element identifier_string (description ev) lon lat)
                  in case decode self xml_string of
                       Inl exn \<Rightarrow> Inl exn
                     | Inr output_text \<Rightarrow> Inr (WriteText self output_text)))))"

definition WriteHeader :: "KMLOutputModule \<Rightarrow> KMLOutputModule" where
  \<open>WriteHeader self =
     WriteText self
       (ustr ''<?xml version="1.0" encoding="'' @ encoding self @ ustr ''"?>'' @
        ustr ''<kml xmlns="http://www.opengis.net/kml/2.2"><Document>'')\<close>

definition WriteFooter :: "KMLOutputModule \<Rightarrow> KMLOutputModule" where
  "WriteFooter self = WriteText self (ustr ''</Document></kml>'')"

text \<open>
  The calls a record stream causes, in order: \<open>WriteEventBody\<close> for each record; an exception
  ends the sequence, since nothing in the module catches it.  \<open>write_document\<close> is the
  whole protocol: the header, the records, the footer.
\<close>

fun write_events :: "KMLOutputModule \<Rightarrow> event_record list \<Rightarrow> py_exception + KMLOutputModule" where
  "write_events self [] = Inr self"
| "write_events self (ev # evs) =
     (case WriteEventBody self ev of Inl exn \<Rightarrow> Inl exn | Inr self' \<Rightarrow> write_events self' evs)"

definition write_document :: "KMLOutputModule \<Rightarrow> event_record list \<Rightarrow> py_exception + KMLOutputModule" where
  "write_document self evs =
     (case write_events (WriteHeader self) evs of
        Inl exn \<Rightarrow> Inl exn
      | Inr self' \<Rightarrow> Inr (WriteFooter self'))"

text \<open>The \<open>ascii\<close> codec, and what it means for a codec to agree with ASCII.\<close>

definition is_ascii :: "nat list \<Rightarrow> bool" where
  "is_ascii s = list_all (\<lambda>c. c < 128) s"

definition ascii_decode :: "bytes \<Rightarrow> py_exception + ustring" where
  "ascii_decode bs = (if is_ascii bs then Inr bs else Inl UnicodeDecodeError)"

definition ascii_compatible :: "(bytes \<Rightarrow> py_exception + ustring) \<Rightarrow> bool" where
  "ascii_compatible dec = (\<forall>bs. is_ascii bs \<longrightarrow> dec bs = Inr bs)"

definition eligible :: "event_record \<Rightarrow> bool" where
  "eligible ev = (latitude ev \<noteq> None \<and> longitude ev \<noteq> None)"

section \<open>Reading XML back\<close>

text \<open>
  A parser for the part of XML 1.0 that the module writes, after the grammar of the
  recommendation: an optional XML declaration, then one element; an element is a start
  tag with attributes, content and the matching end tag, or an empty-element tag; content
  is character data, references and elements.  Comments, CDATA sections, processing
  instructions and document type declarations are not covered: a text that has them gets
  \<open>None\<close>.  The parser works on the characters of the document, and returns the tree in
  the shape ElementTree gives it: text before the first child in \<open>etext\<close>, text after an
  element in its \<open>tail\<close>, \<open>None\<close> where there is no text.
\<close>

text \<open>Production 2 (Char), 3 (S), 4 and 4a (NameStartChar, NameChar).\<close>

definition is_xml_char :: "nat \<Rightarrow> bool" where
  "is_xml_char c =
     (c = 9 \<or> c = 10 \<or> c = 13 \<or> (32 \<le> c \<and> c \<le> 0xD7FF) \<or> (0xE000 \<le> c \<and> c \<le> 0xFFFD) \<or>
      (0x10000 \<le> c \<and> c \<le> 0x10FFFF))"

definition is_space :: "nat \<Rightarrow> bool" where
  "is_space c = (c = 32 \<or> c = 9 \<or> c = 10 \<or> c = 13)"

definition is_name_start :: "nat \<Rightarrow> bool" where
  "is_name_start c =
     (c = 58 \<or> (65 \<le> c \<and> c \<le> 90) \<or> c = 95 \<or> (97 \<le> c \<and> c \<le> 122) \<or>
      (0xC0 \<le> c \<and> c \<le> 0xD6) \<or> (0xD8 \<le> c \<and> c \<le> 0xF6) \<or> (0xF8 \<le> c \<and> c \<le> 0x2FF) \<or>
      (0x370 \<le> c \<and> c \<le> 0x37D) \<or> (0x37F \<le> c \<and> c \<le> 0x1FFF) \<or>
      (0x200C \<le> c \<and> c \<le> 0x200D) \<or> (0x2070 \<le> c \<and> c \<le> 0x218F) \<or>
      (0x2C00 \<le> c \<and> c \<le> 0x2FEF) \<or> (0x3001 \<le> c \<and> c \<le> 0xD7FF) \<or>
      (0xF900 \<le> c \<and> c \<le> 0xFDCF) \<or> (0xFDF0 \<le> c \<and> c \<le> 0xFFFD) \<or>
      (0x10000 \<le> c \<and> c \<le> 0xEFFFF))"

definition is_name_char :: "nat \<Rightarrow> bool" where
  "is_name_char c =
     (is_name_start c \<or> c = 45 \<or> c = 46 \<or> (48 \<le> c \<and> c \<le> 57) \<or> c = 0xB7 \<or>
      (0x300 \<le> c \<and> c \<le> 0x36F) \<or> (0x203F \<le> c \<and> c \<le> 0x2040))"

definition is_digit :: "nat \<Rightarrow> bool" where
  "is_digit c = (48 \<le> c \<and> c \<le> 57)"

definition is_hex_digit :: "nat \<Rightarrow> bool" where
  "is_hex_digit c = (is_digit c \<or> (65 \<le> c \<and> c \<le> 70) \<or> (97 \<le> c \<and> c \<le> 102))"

definition is_letter :: "nat \<Rightarrow> bool" where
  "is_letter c = ((65 \<le> c \<and> c \<le> 90) \<or> (97 \<le> c \<and> c \<le> 122))"

definition skip_space :: "ustring \<Rightarrow> ustring" where
  "skip_space s = dropWhile is_space s"

fun strip_prefix :: "ustring \<Rightarrow> ustring \<Rightarrow> ustring option" where
  "strip_prefix [] s = Some s"
| "strip_prefix (p # ps) [] = None"
| "strip_prefix (p # ps) (c # cs) = (if p = c then strip_prefix ps cs else None)"

text \<open>
  Productions 66 to 68 and section 4.6: a reference is \<open>&#\<close> digits \<open>;\<close>, \<open>&#x\<close> hexadecimal
  digits \<open>;\<close>, or one of the five predefined entities; the character referred to must be a
  legal character.  \<open>decode_reference\<close> takes what stands between \<open>&\<close> and \<open>;\<close>.
\<close>

definition digit_value :: "nat \<Rightarrow> nat" where
  "digit_value c = (if c \<le> 57 then c - 48 else if c \<le> 70 then c - 55 else c - 87)"

definition number_value :: "nat \<Rightarrow> ustring \<Rightarrow> nat" where
  "number_value base ds = foldl (\<lambda>a d. base * a + digit_value d) 0 ds"

definition legal_char :: "nat \<Rightarrow> nat option" where
  "legal_char c = (if is_xml_char c then Some c else None)"

definition decode_reference :: "ustring \<Rightarrow> nat option" where
  "decode_reference nm =
     (if nm = ustr ''amp'' then Some 38
      else if nm = ustr ''lt'' then Some 60
      else if nm = ustr ''gt'' then Some 62
      else if nm = ustr ''quot'' then Some 34
      else if nm = ustr ''apos'' then Some 39
      else (case nm of
              c1 # c2 # ds \<Rightarrow>
                if c1 = 35 \<and> c2 = 120 \<and> ds \<noteq> [] \<and> list_all is_hex_digit ds
                then legal_char (number_value 16 ds)
                else if c1 = 35 \<and> list_all is_digit (c2 # ds)
                then legal_char (number_value 10 (c2 # ds))
                else None
            | _ \<Rightarrow> None))"

text \<open>
  Production 14 (CharData) with the references of production 43, up to the next \<open><\<close> or the
  end of the input.  The first argument counts the \<open>]\<close> just before the position, since
  \<open>]]>\<close> must not occur in character data.  Section 2.11: a carriage return followed by a
  line feed, and a carriage return alone, are passed on as one line feed.
\<close>

function parse_chardata :: "nat \<Rightarrow> ustring \<Rightarrow> (ustring \<times> ustring) option" where
  "parse_chardata k [] = Some ([], [])"
| "parse_chardata k (c # cs) =
     (if c = 60 then Some ([], c # cs)
      else if c = 38 then
        (if dropWhile (\<lambda>x. x \<noteq> 59) cs = [] then None
         else case decode_reference (takeWhile (\<lambda>x. x \<noteq> 59) cs) of
                None \<Rightarrow> None
              | Some ch \<Rightarrow>
                 (case parse_chardata 0 (tl (dropWhile (\<lambda>x. x \<noteq> 59) cs)) of
                    None \<Rightarrow> None
                  | Some (t, r) \<Rightarrow> Some (ch # t, r)))
      else if c = 62 \<and> 2 \<le> k then None
      else if c = 13 then
        (case parse_chardata 0 cs of
           None \<Rightarrow> None
         | Some (t, r) \<Rightarrow> Some (if cs \<noteq> [] \<and> hd cs = 10 then t else 10 # t, r))
      else if is_xml_char c then
        (case parse_chardata (if c = 93 then Suc k else 0) cs of
           None \<Rightarrow> None
         | Some (t, r) \<Rightarrow> Some (c # t, r))
      else None)"
  by pat_completeness auto
termination
  by (relation "measure (\<lambda>(k, s). length s)")
    (auto simp: less_Suc_eq_le intro: le_trans [OF diff_le_self length_dropWhile_le])

declare parse_chardata.simps [simp del]

text \<open>
  Production 10 (AttValue) after the opening quote \<open>q\<close>, with the normalization of section
  3.3.3: a white space character becomes a space, a carriage return with its line feed
  one space.
\<close>

function parse_attvalue :: "nat \<Rightarrow> ustring \<Rightarrow> (ustring \<times> ustring) option" where
  "parse_attvalue q [] = None"
| "parse_attvalue q (c # cs) =
     (if c = q then Some ([], cs)
      else if c = 60 then None
      else if c = 38 then
        (if dropWhile (\<lambda>x. x \<noteq> 59) cs = [] then None
         else case decode_reference (takeWhile (\<lambda>x. x \<noteq> 59) cs) of
                None \<Rightarrow> None
              | Some ch \<Rightarrow>
                 (case parse_attvalue q (tl (dropWhile (\<lambda>x. x \<noteq> 59) cs)) of
                    None \<Rightarrow> None
                  | Some (t, r) \<Rightarrow> Some (ch # t, r)))
      else if c = 13 \<and> cs \<noteq> [] \<and> hd cs = 10 then parse_attvalue q cs
      else if is_xml_char c then
        (case parse_attvalue q cs of
           None \<Rightarrow> None
         | Some (t, r) \<Rightarrow> Some ((if is_space c then 32 else c) # t, r))
      else None)"
  by pat_completeness auto
termination
  by (relation "measure (\<lambda>(q, s). length s)")
    (auto simp: less_Suc_eq_le intro: le_trans [OF diff_le_self length_dropWhile_le])

declare parse_attvalue.simps [simp del]

text \<open>Production 5 (Name).\<close>

definition parse_name :: "ustring \<Rightarrow> (ustring \<times> ustring) option" where
  "parse_name s =
     (case s of
        [] \<Rightarrow> None
      | c # cs \<Rightarrow>
         if is_name_start c then Some (c # takeWhile is_name_char cs, dropWhile is_name_char cs)
         else None)"

text \<open>
  Production 41 (Attribute), repeated: white space, a name, \<open>=\<close>, a quoted value.  The
  first argument bounds the number of attributes; \<open>parse_start_tag\<close> passes the length of
  the input, which is enough.
\<close>

fun parse_attributes :: "nat \<Rightarrow> ustring \<Rightarrow> ((ustring \<times> ustring) list \<times> ustring) option" where
  "parse_attributes 0 s = None"
| "parse_attributes (Suc n) s =
     (case skip_space s of
        [] \<Rightarrow> None
      | c # cs \<Rightarrow>
         if c = 62 \<or> c = 47 then Some ([], c # cs)
         else if skip_space s = s then None
         else (case parse_name (c # cs) of
                 None \<Rightarrow> None
               | Some (nm, s2) \<Rightarrow>
                  (case skip_space s2 of
                     [] \<Rightarrow> None
                   | e # s3 \<Rightarrow>
                      if e \<noteq> 61 then None
                      else (case skip_space s3 of
                              [] \<Rightarrow> None
                            | q # s4 \<Rightarrow>
                               if q \<noteq> 34 \<and> q \<noteq> 39 then None
                               else (case parse_attvalue q s4 of
                                       None \<Rightarrow> None
                                     | Some (v, s5) \<Rightarrow>
                                        (case parse_attributes n s5 of
                                           None \<Rightarrow> None
                                         | Some (items, s6) \<Rightarrow> Some ((nm, v) # items, s6)))))))"

text \<open>
  Productions 40 (STag) and 44 (EmptyElemTag): the name, the attributes (no name twice),
  then \<open>>\<close> or \<open>/>\<close>; the flag tells an empty-element tag.  Production 42 (ETag).
\<close>

definition parse_start_tag ::
    "ustring \<Rightarrow> (ustring \<times> (ustring \<times> ustring) list \<times> bool \<times> ustring) option" where
  "parse_start_tag s =
     (case s of
        [] \<Rightarrow> None
      | c # cs \<Rightarrow>
         if c \<noteq> 60 then None
         else (case parse_name cs of
                 None \<Rightarrow> None
               | Some (nm, s1) \<Rightarrow>
                  (case parse_attributes (Suc (length s1)) s1 of
                     None \<Rightarrow> None
                   | Some (items, s2) \<Rightarrow>
                      if \<not> distinct (map fst items) then None
                      else (case s2 of
                              [] \<Rightarrow> None
                            | c1 # s3 \<Rightarrow>
                               if c1 = 62 then Some (nm, items, False, s3)
                               else (case s3 of
                                       [] \<Rightarrow> None
                                     | c2 # s4 \<Rightarrow>
                                        if c1 = 47 \<and> c2 = 62 then Some (nm, items, True, s4)
                                        else None)))))"

definition parse_end_tag :: "ustring \<Rightarrow> ustring \<Rightarrow> ustring option" where
  "parse_end_tag nm s =
     (case strip_prefix [60, 47] s of
        None \<Rightarrow> None
      | Some s1 \<Rightarrow>
         (case parse_name s1 of
            None \<Rightarrow> None
          | Some (nm', s2) \<Rightarrow>
             if nm' \<noteq> nm then None
             else (case skip_space s2 of
                     [] \<Rightarrow> None
                   | c # s3 \<Rightarrow> if c = 62 then Some s3 else None)))"

text \<open>
  Productions 39 (element) and 43 (content).  The first argument is fuel: it goes down by
  one at each call, and \<open>xml_parse\<close> starts with the length of the input.
\<close>

definition opt_text :: "ustring \<Rightarrow> ustring option" where
  "opt_text t = (if t = [] then None else Some t)"

fun parse_element :: "nat \<Rightarrow> ustring \<Rightarrow> (Element \<times> ustring) option"
  and parse_content :: "nat \<Rightarrow> ustring \<Rightarrow> (Element list \<times> ustring) option" where
  "parse_element 0 s = None"
| "parse_element (Suc n) s =
     (case parse_start_tag s of
        None \<Rightarrow> None
      | Some (nm, items, closed, s1) \<Rightarrow>
         if closed then Some (Element nm items None [] None, s1)
         else (case parse_chardata 0 s1 of
                 None \<Rightarrow> None
               | Some (t, s2) \<Rightarrow>
                  (case parse_content n s2 of
                     None \<Rightarrow> None
                   | Some (elems, s3) \<Rightarrow>
                      (case parse_end_tag nm s3 of
                         None \<Rightarrow> None
                       | Some s4 \<Rightarrow> Some (Element nm items (opt_text t) elems None, s4)))))"
| "parse_content 0 s = None"
| "parse_content (Suc n) s =
     (if strip_prefix [60, 47] s \<noteq> None then Some ([], s)
      else (case parse_element n s of
              None \<Rightarrow> None
            | Some (e, s2) \<Rightarrow>
               (case parse_chardata 0 s2 of
                  None \<Rightarrow> None
                | Some (t, s3) \<Rightarrow>
                   (case parse_content n s3 of
                      None \<Rightarrow> None
                    | Some (elems, s4) \<Rightarrow>
                       Some (Element (tag e) (attrib e) (etext e) (children e) (opt_text t) # elems,
                             s4)))))"

text \<open>
  Production 23 (XMLDecl): \<open><?xml\<close>, the version, then optionally the encoding and the
  standalone declaration, each as white space, a name, \<open>=\<close> and a quoted value of the
  right form (productions 26, 81 and 32), then \<open>?>\<close>.
\<close>

definition is_version_num :: "ustring \<Rightarrow> bool" where
  "is_version_num v =
     (case strip_prefix [49, 46] v of None \<Rightarrow> False | Some ds \<Rightarrow> ds \<noteq> [] \<and> list_all is_digit ds)"

definition is_enc_name :: "ustring \<Rightarrow> bool" where
  "is_enc_name v =
     (case v of
        [] \<Rightarrow> False
      | c # cs \<Rightarrow>
         is_letter c \<and> list_all (\<lambda>x. is_letter x \<or> is_digit x \<or> x = 46 \<or> x = 95 \<or> x = 45) cs)"

definition is_yes_no :: "ustring \<Rightarrow> bool" where
  "is_yes_no v = (v = ustr ''yes'' \<or> v = ustr ''no'')"

definition has_pseudo_attr :: "ustring \<Rightarrow> ustring \<Rightarrow> bool" where
  "has_pseudo_attr nm s = (strip_prefix nm (skip_space s) \<noteq> None)"

definition parse_pseudo_attr :: "ustring \<Rightarrow> (ustring \<Rightarrow> bool) \<Rightarrow> ustring \<Rightarrow> ustring option" where
  "parse_pseudo_attr nm ok s =
     (if skip_space s = s then None
      else (case strip_prefix nm (skip_space s) of
              None \<Rightarrow> None
            | Some s1 \<Rightarrow>
               (case skip_space s1 of
                  [] \<Rightarrow> None
                | e # s2 \<Rightarrow>
                   if e \<noteq> 61 then None
                   else (case skip_space s2 of
                           [] \<Rightarrow> None
                         | q # s3 \<Rightarrow>
                            if q \<noteq> 34 \<and> q \<noteq> 39 then None
                            else if dropWhile (\<lambda>x. x \<noteq> q) s3 = [] then None
                            else if \<not> ok (takeWhile (\<lambda>x. x \<noteq> q) s3) then None
                            else Some (tl (dropWhile (\<lambda>x. x \<noteq> q) s3))))))"

definition parse_xmldecl :: "ustring \<Rightarrow> ustring option" where
  "parse_xmldecl s =
     (case strip_prefix (ustr ''<?xml'') s of
        None \<Rightarrow> None
      | Some s0 \<Rightarrow>
         (case parse_pseudo_attr (ustr ''version'') is_version_num s0 of
            None \<Rightarrow> None
          | Some s1 \<Rightarrow>
             (case (if has_pseudo_attr (ustr ''encoding'') s1
                    then parse_pseudo_attr (ustr ''encoding'') is_enc_name s1 else Some s1) of
                None \<Rightarrow> None
              | Some s2 \<Rightarrow>
                 (case (if has_pseudo_attr (ustr ''standalone'') s2
                        then parse_pseudo_attr (ustr ''standalone'') is_yes_no s2 else Some s2) of
                    None \<Rightarrow> None
                  | Some s3 \<Rightarrow> strip_prefix (ustr ''?>'') (skip_space s3)))))"

text \<open>
  Production 1 (document): the declaration if the text starts with \<open><?xml\<close>, white space,
  the root element, white space, and the end of the text.
\<close>

definition xml_parse :: "ustring \<Rightarrow> Element option" where
  "xml_parse s =
     (case (if strip_prefix (ustr ''<?xml'') s = None then Some s else parse_xmldecl s) of
        None \<Rightarrow> None
      | Some s1 \<Rightarrow>
         (case parse_element (length (skip_space s1)) (skip_space s1) of
            None \<Rightarrow> None
          | Some (e, s2) \<Rightarrow> if skip_space s2 = [] then Some e else None))"

text \<open>What the parser makes of a text: the line ends of section 2.11.\<close>

fun nl_norm :: "ustring \<Rightarrow> ustring" where
  "nl_norm [] = []"
| "nl_norm (c # cs) =
     (if c = 13 then (if cs \<noteq> [] \<and> hd cs = 10 then nl_norm cs else 10 # nl_norm cs)
      else c # nl_norm cs)"

text \<open>
  What reading back does to a tree that was written: line ends are normalized and an
  empty text comes back as no text.
\<close>

definition canon_text :: "ustring option \<Rightarrow> ustring option" where
  "canon_text t = (case t of None \<Rightarrow> None | Some s \<Rightarrow> opt_text (nl_norm s))"

fun canon :: "Element \<Rightarrow> Element" where
  "canon (Element nm items t elems tl0) =
     Element nm items (canon_text t) (map canon elems) (canon_text tl0)"

text \<open>The texts and names the parser accepts.\<close>

definition xml_chars :: "ustring \<Rightarrow> bool" where
  "xml_chars s = list_all is_xml_char s"

definition xml_name :: "ustring \<Rightarrow> bool" where
  "xml_name nm = (nm \<noteq> [] \<and> is_name_start (hd nm) \<and> list_all is_name_char (tl nm))"

section \<open>Reading an element tree, and example data\<close>




text \<open>The bytes \<open>tostring\<close> writes for a text: escaped, then made ASCII.\<close>

definition xml_text :: "ustring \<Rightarrow> bytes" where
  "xml_text s = encode_ascii (escape_cdata s)"

definition escape_char :: "nat \<Rightarrow> ustring" where
  "escape_char c =
     (if c = 38 then ustr ''&amp;'' else if c = 60 then ustr ''&lt;''
      else if c = 62 then ustr ''&gt;'' else [c])"

definition header_text :: "ustring \<Rightarrow> ustring" where
  \<open>header_text enc = ustr ''<?xml version="1.0" encoding="'' @ enc @ ustr ''"?>'' @
     ustr ''<kml xmlns="http://www.opengis.net/kml/2.2">'' @ ustr ''<Document>''\<close>

text \<open>The bytes of an element that has a text and no child.\<close>

definition leaf_bytes :: "ustring \<Rightarrow> ustring \<Rightarrow> bytes" where
  "leaf_bytes nm t =
     (if t = [] then 60 # nm @ [32, 47, 62] else 60 # nm @ 62 # xml_text t @ 60 # 47 # nm @ [62])"

text \<open>
  The placemark \<open>WriteEventBody\<close> builds for a record, if it builds one; a placemark
  whose four texts are legal XML characters; the records whose texts are (a record without
  a coordinate writes nothing and is not constrained); the tree of a whole document; the
  text a run of the module has written.
\<close>

definition placemark_of :: "event_record \<Rightarrow> Element option" where
  "placemark_of ev =
     (case latitude ev of
        None \<Rightarrow> None
      | Some lat \<Rightarrow>
         (case longitude ev of
            None \<Rightarrow> None
          | Some lon \<Rightarrow>
             (case event_identifier ev of
                Inl exn \<Rightarrow> None
              | Inr i \<Rightarrow> Some (placemark_xml_element i (description ev) lon lat))))"

definition legal_placemark :: "Element \<Rightarrow> bool" where
  "legal_placemark p =
     (\<exists>i d lon lat. p = placemark_xml_element i d lon lat \<and> xml_chars i \<and> xml_chars d \<and>
        xml_chars (py_str lon) \<and> xml_chars (py_str lat))"

definition record_texts_legal :: "event_record \<Rightarrow> bool" where
  "record_texts_legal ev =
     (case latitude ev of
        None \<Rightarrow> True
      | Some lat \<Rightarrow>
         (case longitude ev of
            None \<Rightarrow> True
          | Some lon \<Rightarrow>
             (case event_identifier ev of
                Inl exn \<Rightarrow> False
              | Inr i \<Rightarrow>
                 xml_chars i \<and> xml_chars (description ev) \<and> xml_chars (py_str lon) \<and>
                 xml_chars (py_str lat))))"

definition kml_document :: "Element list \<Rightarrow> Element" where
  "kml_document placemarks =
     Element (ustr ''kml'') [(ustr ''xmlns'', ustr ''http://www.opengis.net/kml/2.2'')] None
       [Element (ustr ''Document'') [] None placemarks None] None"

definition document_text :: "py_exception + KMLOutputModule \<Rightarrow> ustring option" where
  "document_text res = (case res of Inl exn \<Rightarrow> None | Inr self \<Rightarrow> Some (concat (sink self)))"

text \<open>Example data.\<close>

definition kml0 :: KMLOutputModule where
  "kml0 = \<lparr>encoding = ustr ''utf-8'', decode = ascii_decode, sink = []\<rparr>"

definition float_0 :: pyobj where
  "float_0 = \<lparr>py_str = ustr ''0.0'', py_bool = False\<rparr>"

definition float_12_5 :: pyobj where
  "float_12_5 = \<lparr>py_str = ustr ''12.5'', py_bool = True\<rparr>"

definition float_m70_25 :: pyobj where
  "float_m70_25 = \<lparr>py_str = ustr ''-70.25'', py_bool = True\<rparr>"

definition event_E1 :: event_record where
  "event_E1 = \<lparr>event_identifier = Inr (ustr ''E1''), latitude = Some float_12_5,
     longitude = Some float_m70_25, description = ustr ''Home''\<rparr>"

definition event_bad :: event_record where
  "event_bad = \<lparr>event_identifier = Inl AttributeError, latitude = Some float_12_5,
     longitude = Some float_m70_25, description = ustr ''Home''\<rparr>"

definition event_nogeo :: event_record where
  "event_nogeo = \<lparr>event_identifier = Inl AttributeError, latitude = None,
     longitude = Some float_0, description = ustr ''NoGeo''\<rparr>"


definition event_accent :: event_record where
  "event_accent = \<lparr>event_identifier = Inr (ustr ''E'' @ [233]), latitude = Some float_12_5,
     longitude = Some float_m70_25, description = ustr ''caf'' @ [233, 8364]\<rparr>"

definition event_ctrl :: event_record where
  "event_ctrl = \<lparr>event_identifier = Inr (ustr ''E1''), latitude = Some float_12_5,
     longitude = Some float_m70_25, description = [1]\<rparr>"



section \<open>Facts about the serializer\<close>


lemma ascii_compatible_ascii_decode: "ascii_compatible ascii_decode"
  by (simp add: ascii_compatible_def ascii_decode_def)

lemma decimal_digits: "list_all (\<lambda>c. 48 \<le> c \<and> c \<le> 57) (decimal n)"
proof (induction n rule: decimal.induct)
  case (1 n)
  show ?case
  proof (cases "n < 10")
    case True
    then show ?thesis by (simp add: decimal.simps [of n])
  next
    case False
    with 1 have "list_all (\<lambda>c. 48 \<le> c \<and> c \<le> 57) (decimal (n div 10))" by simp
    moreover have "n mod 10 < 10" by simp
    ultimately show ?thesis using False by (simp add: decimal.simps [of n])
  qed
qed

lemma is_ascii_append [simp]: "is_ascii (xs @ ys) = (is_ascii xs \<and> is_ascii ys)"
  by (simp add: is_ascii_def)

lemma is_ascii_Cons [simp]: "is_ascii (x # xs) = (x < 128 \<and> is_ascii xs)"
  by (simp add: is_ascii_def)

lemma is_ascii_Nil [simp]: "is_ascii []"
  by (simp add: is_ascii_def)

lemma is_ascii_decimal: "is_ascii (decimal n)"
  using decimal_digits [of n] unfolding is_ascii_def
  by (induction "decimal n" arbitrary: n) (auto simp: list_all_iff)

lemma is_ascii_xmlcharrefreplace: "is_ascii (xmlcharrefreplace c)"
  by (simp add: xmlcharrefreplace_def ustr_def is_ascii_decimal)

lemma encode_ascii_Nil [simp]: "encode_ascii [] = []"
  by (simp add: encode_ascii_def)

lemma encode_ascii_Cons: "encode_ascii (c # s) = xmlcharrefreplace c @ encode_ascii s"
  by (simp add: encode_ascii_def)

lemma encode_ascii_append [simp]: "encode_ascii (s @ t) = encode_ascii s @ encode_ascii t"
  by (simp add: encode_ascii_def)

lemma is_ascii_encode_ascii: "is_ascii (encode_ascii s)"
  by (induction s) (simp_all add: encode_ascii_Cons is_ascii_xmlcharrefreplace)

lemma is_ascii_tostring: "is_ascii (tostring e)"
  by (simp add: tostring_def is_ascii_encode_ascii)

lemma encode_ascii_ascii: "is_ascii s \<Longrightarrow> encode_ascii s = s"
  by (induction s) (simp_all add: encode_ascii_Cons xmlcharrefreplace_def)

lemma replace_Nil [simp]: "replace old new [] = []"
  by (simp add: replace_def)

lemma replace_Cons [simp]:
  "replace old new (c # s) = (if c = old then new else [c]) @ replace old new s"
  by (simp add: replace_def)

lemma replace_append [simp]:
  "replace old new (s @ t) = replace old new s @ replace old new t"
  by (simp add: replace_def)

lemma replace_absent: "old \<notin> set s \<Longrightarrow> replace old new s = s"
  by (induction s) auto

text \<open>The three replacements of \<open>_escape_cdata\<close> amount to one pass over the characters.\<close>

lemma escape_cdata_replace:
  "escape_cdata s =
     replace 62 (ustr ''&gt;'') (replace 60 (ustr ''&lt;'') (replace 38 (ustr ''&amp;'') s))"
  by (simp add: escape_cdata_def Let_def replace_absent)

lemma escape_cdata_concat: "escape_cdata s = concat (map escape_char s)"
  unfolding escape_cdata_replace
  by (induction s) (simp_all add: escape_char_def ustr_def)


lemma xml_text_plain:
  "is_ascii s \<Longrightarrow> 38 \<notin> set s \<Longrightarrow> 60 \<notin> set s \<Longrightarrow> 62 \<notin> set s \<Longrightarrow> xml_text s = s"
  by (simp add: xml_text_def escape_cdata_def encode_ascii_ascii)

text \<open>The bytes of a placemark, as section 6 of the specification lays them out.\<close>

lemma tostring_placemark:
  "tostring (placemark_xml_element i d lon lat) =
     ustr ''<Placemark>'' @
     (if i = [] then ustr ''<name />'' else ustr ''<name>'' @ xml_text i @ ustr ''</name>'') @
     ustr ''<description>'' @ xml_text (d @ [10]) @ ustr ''</description>'' @
     ustr ''<Point><coordinates>'' @ xml_text (py_str lon @ ustr '','' @ py_str lat) @
     ustr ''</coordinates></Point></Placemark>''"
  by (simp add: tostring_def placemark_xml_element_def truthy_def xml_text_def
      encode_ascii_Cons xmlcharrefreplace_def ustr_def)

lemma WriteEventBody_eligible:
  assumes "latitude ev = Some lat" and "longitude ev = Some lon"
    and "event_identifier ev = Inr i" and "ascii_compatible (decode self)"
  shows "WriteEventBody self ev =
    Inr (self\<lparr>sink := sink self @ [tostring (placemark_xml_element i (description ev) lon lat)]\<rparr>)"
proof -
  have "decode self (tostring (placemark_xml_element i (description ev) lon lat)) =
    Inr (tostring (placemark_xml_element i (description ev) lon lat))"
    using assms(4) is_ascii_tostring by (simp add: ascii_compatible_def)
  then show ?thesis
    using assms(1-3) by (simp add: WriteEventBody_def WriteText_def)
qed

section \<open>Facts about the parser\<close>

lemma parse_chardata_lt [simp]: "parse_chardata k (60 # r) = Some ([], 60 # r)"
  by (simp add: parse_chardata.simps)

lemma parse_chardata_Nil [simp]: "parse_chardata k [] = Some ([], [])"
  by (simp add: parse_chardata.simps)

lemma decimal_not_Nil: "decimal n \<noteq> []"
  by (subst decimal.simps) simp

lemma digit_value_digit: "m < 10 \<Longrightarrow> digit_value (48 + m) = m"
  by (simp add: digit_value_def)

lemma number_value_snoc:
  "number_value b (ds @ [d]) = b * number_value b ds + digit_value d"
  by (simp add: number_value_def)

lemma number_value_decimal: "number_value 10 (decimal n) = n"
proof (induction n rule: decimal.induct)
  case (1 n)
  show ?case
  proof (cases "n < 10")
    case True
    then show ?thesis
      by (simp add: decimal.simps [of n] number_value_def digit_value_digit)
  next
    case False
    with 1 have "number_value 10 (decimal (n div 10)) = n div 10" by simp
    then show ?thesis
      using False by (simp add: decimal.simps [of n] number_value_snoc digit_value_digit)
  qed
qed

lemma is_digit_decimal: "list_all is_digit (decimal n)"
  using decimal_digits [of n] by (auto simp: list_all_iff is_digit_def)

lemma semicolon_not_in_decimal: "x \<in> set (decimal n) \<Longrightarrow> x \<noteq> 59"
  using decimal_digits [of n] by (auto simp: list_all_iff)

lemma decode_reference_decimal: "decode_reference (35 # decimal c) = legal_char c"
proof -
  obtain d ds where dd: "decimal c = d # ds"
    using decimal_not_Nil [of c] by (cases "decimal c") auto
  have "list_all is_digit (d # ds)" using is_digit_decimal [of c] dd by simp
  moreover from this have "d \<noteq> 120" by (auto simp: is_digit_def)
  moreover have "number_value 10 (d # ds) = c" using number_value_decimal [of c] dd by simp
  ultimately show ?thesis
    unfolding dd by (simp add: decode_reference_def ustr_def)
qed

lemma decode_reference_names:
  "decode_reference (ustr ''amp'') = Some 38"
  "decode_reference (ustr ''lt'') = Some 60"
  "decode_reference (ustr ''gt'') = Some 62"
  by (simp_all add: decode_reference_def ustr_def)

lemma xml_text_Nil [simp]: "xml_text [] = []"
  by (simp add: xml_text_def escape_cdata_def)

lemma xml_text_Cons: "xml_text (c # s) = xml_text [c] @ xml_text s"
  by (simp add: xml_text_def escape_cdata_concat)

lemma xml_text_append: "xml_text (s @ t) = xml_text s @ xml_text t"
  by (simp add: xml_text_def escape_cdata_concat)

lemma xml_text_single:
  "xml_text [c] =
     (if c = 38 then ustr ''&amp;'' else if c = 60 then ustr ''&lt;''
      else if c = 62 then ustr ''&gt;''
      else if c < 128 then [c] else 38 # 35 # decimal c @ [59])"
  by (simp add: xml_text_def escape_cdata_concat escape_char_def encode_ascii_Cons
      xmlcharrefreplace_def ustr_def)

lemma hd_xml_text_lf:
  "(xml_text s @ 60 # r \<noteq> [] \<and> hd (xml_text s @ 60 # r) = 10) = (s \<noteq> [] \<and> hd s = 10)"
proof (cases s)
  case Nil
  then show ?thesis by simp
next
  case (Cons c s')
  then show ?thesis
    by (simp add: xml_text_Cons [of c s'] xml_text_single ustr_def)
qed

lemma takeWhile_stop:
  "(\<And>x. x \<in> set xs \<Longrightarrow> P x) \<Longrightarrow> \<not> P y \<Longrightarrow> takeWhile P (xs @ y # ys) = xs"
  by (simp add: takeWhile_append2)

lemma dropWhile_stop:
  "(\<And>x. x \<in> set xs \<Longrightarrow> P x) \<Longrightarrow> \<not> P y \<Longrightarrow> dropWhile P (xs @ y # ys) = y # ys"
  by (simp add: dropWhile_append2)

lemma parse_chardata_reference:
  assumes "decode_reference nm = Some ch" and "\<And>x. x \<in> set nm \<Longrightarrow> x \<noteq> 59"
  shows "parse_chardata k (38 # nm @ 59 # r) =
    (case parse_chardata 0 r of None \<Rightarrow> None | Some (t, r') \<Rightarrow> Some (ch # t, r'))"
proof -
  have "takeWhile (\<lambda>x. x \<noteq> 59) (nm @ 59 # r) = nm"
    and "dropWhile (\<lambda>x. x \<noteq> 59) (nm @ 59 # r) = 59 # r"
    using assms(2) by (simp_all add: takeWhile_stop dropWhile_stop)
  then show ?thesis
    using assms(1) by (simp add: parse_chardata.simps(2) [of k 38])
qed

lemma parse_chardata_entity:
  "parse_chardata k (ustr ''&amp;'' @ r) =
     (case parse_chardata 0 r of None \<Rightarrow> None | Some (t, r') \<Rightarrow> Some (38 # t, r'))"
  "parse_chardata k (ustr ''&lt;'' @ r) =
     (case parse_chardata 0 r of None \<Rightarrow> None | Some (t, r') \<Rightarrow> Some (60 # t, r'))"
  "parse_chardata k (ustr ''&gt;'' @ r) =
     (case parse_chardata 0 r of None \<Rightarrow> None | Some (t, r') \<Rightarrow> Some (62 # t, r'))"
proof -
  have a: "\<And>x. x \<in> set (ustr ''amp'') \<Longrightarrow> x \<noteq> 59"
    and l: "\<And>x. x \<in> set (ustr ''lt'') \<Longrightarrow> x \<noteq> 59"
    and g: "\<And>x. x \<in> set (ustr ''gt'') \<Longrightarrow> x \<noteq> 59"
    by (auto simp: ustr_def)
  show "parse_chardata k (ustr ''&amp;'' @ r) =
     (case parse_chardata 0 r of None \<Rightarrow> None | Some (t, r') \<Rightarrow> Some (38 # t, r'))"
    using parse_chardata_reference [OF decode_reference_names(1) a, of k r]
    by (simp add: ustr_def)
  show "parse_chardata k (ustr ''&lt;'' @ r) =
     (case parse_chardata 0 r of None \<Rightarrow> None | Some (t, r') \<Rightarrow> Some (60 # t, r'))"
    using parse_chardata_reference [OF decode_reference_names(2) l, of k r]
    by (simp add: ustr_def)
  show "parse_chardata k (ustr ''&gt;'' @ r) =
     (case parse_chardata 0 r of None \<Rightarrow> None | Some (t, r') \<Rightarrow> Some (62 # t, r'))"
    using parse_chardata_reference [OF decode_reference_names(3) g, of k r]
    by (simp add: ustr_def)
qed

lemma parse_chardata_xml_text:
  "xml_chars s \<Longrightarrow> parse_chardata k (xml_text s @ 60 # r) = Some (nl_norm s, 60 # r)"
proof (induction s arbitrary: k)
  case Nil
  then show ?case by simp
next
  case (Cons c s)
  then have c: "is_xml_char c" and s: "xml_chars s"
    by (simp_all add: xml_chars_def)
  have ih: "\<And>k. parse_chardata k (xml_text s @ 60 # r) = Some (nl_norm s, 60 # r)"
    using Cons.IH s by simp
  consider (amp) "c = 38" | (lt) "c = 60" | (gt) "c = 62" | (cr) "c = 13"
    | (big) "128 \<le> c" | (plain) "c < 128" "c \<noteq> 38" "c \<noteq> 60" "c \<noteq> 62" "c \<noteq> 13"
    by linarith
  then show ?case
  proof cases
    case amp
    have "parse_chardata k (ustr ''&amp;'' @ (xml_text s @ 60 # r)) =
        Some (38 # nl_norm s, 60 # r)"
      by (simp add: parse_chardata_entity ih)
    then show ?thesis
      using amp by (simp add: xml_text_Cons [of 38 s] xml_text_single)
  next
    case lt
    have "parse_chardata k (ustr ''&lt;'' @ (xml_text s @ 60 # r)) =
        Some (60 # nl_norm s, 60 # r)"
      by (simp add: parse_chardata_entity ih)
    then show ?thesis
      using lt by (simp add: xml_text_Cons [of 60 s] xml_text_single)
  next
    case gt
    have "parse_chardata k (ustr ''&gt;'' @ (xml_text s @ 60 # r)) =
        Some (62 # nl_norm s, 60 # r)"
      by (simp add: parse_chardata_entity ih)
    then show ?thesis
      using gt by (simp add: xml_text_Cons [of 62 s] xml_text_single)
  next
    case cr
    have "parse_chardata k (13 # (xml_text s @ 60 # r)) = Some (nl_norm (13 # s), 60 # r)"
      using hd_xml_text_lf [of s r]
      by (simp add: parse_chardata.simps(2) [of k 13] ih)
    then show ?thesis
      using cr by (simp add: xml_text_Cons [of 13 s] xml_text_single)
  next
    case big
    have "decode_reference (35 # decimal c) = Some c"
      using c by (simp add: decode_reference_decimal legal_char_def)
    then have "parse_chardata k (38 # (35 # decimal c) @ 59 # (xml_text s @ 60 # r)) =
        Some (c # nl_norm s, 60 # r)"
      by (subst parse_chardata_reference [where ch = c])
        (auto simp: ih dest: semicolon_not_in_decimal)
    then show ?thesis
      using big by (simp add: xml_text_Cons [of c s] xml_text_single)
  next
    case plain
    have "parse_chardata k (c # (xml_text s @ 60 # r)) = Some (c # nl_norm s, 60 # r)"
      using plain c by (simp add: parse_chardata.simps(2) [of k c] ih)
    then show ?thesis
      using plain by (simp add: xml_text_Cons [of c s] xml_text_single)
  qed
qed



lemma parse_name_stop:
  assumes "xml_name nm" and "\<not> is_name_char c"
  shows "parse_name (nm @ c # r) = Some (nm, c # r)"
proof -
  obtain a as where nm: "nm = a # as" "is_name_start a" "list_all is_name_char as"
    using assms(1) by (cases nm) (auto simp: xml_name_def)
  have "takeWhile is_name_char (as @ c # r) = as"
    and "dropWhile is_name_char (as @ c # r) = c # r"
    using nm(3) assms(2) by (simp_all add: takeWhile_stop dropWhile_stop list_all_iff)
  then show ?thesis
    using nm by (simp add: parse_name_def)
qed

lemma not_name_char [simp]:
  "\<not> is_name_char 62" "\<not> is_name_char 32" "\<not> is_name_char 47"
  by (simp_all add: is_name_char_def is_name_start_def)

lemma skip_space_simps [simp]:
  "skip_space (62 # r) = 62 # r" "skip_space (47 # r) = 47 # r"
  "skip_space (60 # r) = 60 # r" "skip_space (32 # r) = skip_space r"
  "skip_space [] = []"
  by (simp_all add: skip_space_def is_space_def)

lemma parse_start_tag_open:
  "xml_name nm \<Longrightarrow> parse_start_tag (60 # nm @ 62 # r) = Some (nm, [], False, r)"
  by (simp add: parse_start_tag_def parse_name_stop)

lemma parse_start_tag_closed:
  "xml_name nm \<Longrightarrow> parse_start_tag (60 # nm @ 32 # 47 # 62 # r) = Some (nm, [], True, r)"
  by (simp add: parse_start_tag_def parse_name_stop)

lemma parse_end_tag_ok:
  "xml_name nm \<Longrightarrow> parse_end_tag nm (60 # 47 # nm @ 62 # r) = Some r"
  by (simp add: parse_end_tag_def parse_name_stop)


lemma parse_content_elem:
  assumes "xml_name nm"
  shows "parse_content (Suc n) (60 # nm @ r) =
     (case parse_element n (60 # nm @ r) of
        None \<Rightarrow> None
      | Some (e, s2) \<Rightarrow>
         (case parse_chardata 0 s2 of
            None \<Rightarrow> None
          | Some (t, s3) \<Rightarrow>
             (case parse_content n s3 of
                None \<Rightarrow> None
              | Some (elems, s4) \<Rightarrow>
                 Some (Element (tag e) (attrib e) (etext e) (children e) (opt_text t) # elems,
                       s4))))"
proof -
  obtain a as where nm: "nm = a # as" "is_name_start a"
    using assms by (cases nm) (auto simp: xml_name_def)
  then have "a \<noteq> 47" by (auto simp: is_name_start_def)
  then show ?thesis using nm by simp
qed

lemma fuel_Suc_both:
  "(\<forall>s r. parse_element n s = Some r \<longrightarrow> parse_element (Suc n) s = Some r) \<and>
   (\<forall>s q. parse_content n s = Some q \<longrightarrow> parse_content (Suc n) s = Some q)"
proof (induction n)
  case 0
  show ?case by simp
next
  case (Suc n)
  then have ihe: "\<And>s r. parse_element n s = Some r \<Longrightarrow> parse_element (Suc n) s = Some r"
    and ihc: "\<And>s q. parse_content n s = Some q \<Longrightarrow> parse_content (Suc n) s = Some q"
    by blast+
  have e: "parse_element (Suc (Suc n)) s = Some r" if a: "parse_element (Suc n) s = Some r" for s r
  proof (cases "parse_start_tag s")
    case None
    with a show ?thesis by (simp del: parse_content.simps)
  next
    case (Some x)
    obtain nm items closed s1 where x: "x = (nm, items, closed, s1)" by (cases x) auto
    show ?thesis
    proof (cases closed)
      case True
      with a Some x show ?thesis by (simp del: parse_content.simps)
    next
      case False
      from a Some x False obtain t s2 where t: "parse_chardata 0 s1 = Some (t, s2)"
        by (auto simp del: parse_content.simps split: option.splits)
      from a Some x False t obtain q where q: "parse_content n s2 = Some q"
        by (auto simp del: parse_content.simps split: option.splits)
      from ihc [OF q] have q': "parse_content (Suc n) s2 = Some q" .
      from a show ?thesis
        unfolding parse_element.simps(2) [of "Suc n" s] parse_element.simps(2) [of n s]
        by (simp add: Some x False t q q' del: parse_content.simps parse_element.simps)
    qed
  qed
  have c: "parse_content (Suc (Suc n)) s = Some q" if a: "parse_content (Suc n) s = Some q" for s q
  proof (cases "strip_prefix [60, 47] s = None")
    case False
    with a show ?thesis
      unfolding parse_content.simps(2) [of "Suc n" s] parse_content.simps(2) [of n s]
      by simp
  next
    case True
    from a True obtain e0 s2 where e0: "parse_element n s = Some (e0, s2)"
      unfolding parse_content.simps(2) [of n s] by (auto split: option.splits)
    from a True e0 obtain t s3 where t: "parse_chardata 0 s2 = Some (t, s3)"
      unfolding parse_content.simps(2) [of n s] by (auto split: option.splits)
    from a True e0 t obtain q0 where q0: "parse_content n s3 = Some q0"
      unfolding parse_content.simps(2) [of n s] by (auto split: option.splits)
    from a show ?thesis
      unfolding parse_content.simps(2) [of "Suc n" s] parse_content.simps(2) [of n s]
      by (simp add: True e0 t q0 ihe [OF e0] ihc [OF q0]
          del: parse_content.simps parse_element.simps)
  qed
  from e c show ?case by blast
qed

lemma fuel_mono_element:
  "n \<le> m \<Longrightarrow> parse_element n s = Some r \<Longrightarrow> parse_element m s = Some r"
proof (induction m)
  case 0
  then show ?case by simp
next
  case (Suc m)
  show ?case
  proof (cases "n = Suc m")
    case True
    with Suc.prems show ?thesis by simp
  next
    case False
    with Suc have "parse_element m s = Some r" by simp
    with fuel_Suc_both [of m] show ?thesis by blast
  qed
qed


lemma xml_name_tags [simp]:
  "xml_name (ustr ''Placemark'')" "xml_name (ustr ''name'')" "xml_name (ustr ''description'')"
  "xml_name (ustr ''Point'')" "xml_name (ustr ''coordinates'')" "xml_name (ustr ''Document'')"
  "xml_name (ustr ''kml'')"
  by (simp_all add: xml_name_def ustr_def is_name_start_def is_name_char_def)

lemma parse_chardata_leaf [simp]:
  "parse_chardata k (leaf_bytes nm t @ r) = Some ([], leaf_bytes nm t @ r)"
  by (simp add: leaf_bytes_def)

lemma opt_text_Nil [simp]: "opt_text [] = None"
  by (simp add: opt_text_def)

lemma parse_leaf:
  assumes "xml_name nm" and "xml_chars t"
  shows "parse_element (Suc (Suc n)) (leaf_bytes nm t @ r) =
    Some (Element nm [] (opt_text (nl_norm t)) [] None, r)"
proof (cases "t = []")
  case True
  then show ?thesis
    using assms(1) by (simp add: leaf_bytes_def parse_start_tag_closed)
next
  case False
  then show ?thesis
    using assms
    by (simp add: leaf_bytes_def parse_start_tag_open parse_chardata_xml_text parse_end_tag_ok)
qed

lemma leaf_bytes_tag: "\<exists>rest. \<forall>r. leaf_bytes nm t @ r = 60 # nm @ rest @ r"
proof (cases "t = []")
  case True
  then have "\<forall>r. leaf_bytes nm t @ r = 60 # nm @ [32, 47, 62] @ r"
    by (simp add: leaf_bytes_def)
  then show ?thesis ..
next
  case False
  then have "\<forall>r. leaf_bytes nm t @ r = 60 # nm @ (62 # xml_text t @ 60 # 47 # nm @ [62]) @ r"
    by (simp add: leaf_bytes_def)
  then show ?thesis ..
qed

lemma parse_content_leaf:
  assumes "xml_name nm" and "xml_chars t" and "parse_chardata 0 r = Some ([], r)"
  shows "parse_content (Suc (Suc (Suc n))) (leaf_bytes nm t @ r) =
    (case parse_content (Suc (Suc n)) r of
       None \<Rightarrow> None
     | Some (elems, s4) \<Rightarrow> Some (Element nm [] (opt_text (nl_norm t)) [] None # elems, s4))"
proof -
  obtain rest where rest: "\<And>r. leaf_bytes nm t @ r = 60 # nm @ rest @ r"
    using leaf_bytes_tag [of nm t] by blast
  have "parse_content (Suc (Suc (Suc n))) (60 # nm @ rest @ r) =
    (case parse_content (Suc (Suc n)) r of
       None \<Rightarrow> None
     | Some (elems, s4) \<Rightarrow> Some (Element nm [] (opt_text (nl_norm t)) [] None # elems, s4))"
    apply (subst parse_content_elem [OF assms(1)])
    apply (subst rest [symmetric])
    apply (subst parse_leaf [OF assms(1,2)])
    apply (simp add: assms(3) del: parse_content.simps split: option.split)
    done
  then show ?thesis by (simp add: rest)
qed

lemma tostring_placemark_tags:
  "tostring (placemark_xml_element i d lon lat) @ r =
     60 # ustr ''Placemark'' @ 62 #
       (leaf_bytes (ustr ''name'') i @
        leaf_bytes (ustr ''description'') (d @ [10]) @
        60 # ustr ''Point'' @ 62 #
          (leaf_bytes (ustr ''coordinates'') (py_str lon @ ustr '','' @ py_str lat) @
           60 # 47 # ustr ''Point'' @ 62 # 60 # 47 # ustr ''Placemark'' @ 62 # r))"
  by (simp add: tostring_placemark leaf_bytes_def ustr_def xml_text_append)

lemma canon_placemark:
  "canon (placemark_xml_element i d lon lat) =
     Element (ustr ''Placemark'') [] None
       [Element (ustr ''name'') [] (opt_text (nl_norm i)) [] None,
        Element (ustr ''description'') [] (opt_text (nl_norm (d @ [10]))) [] None,
        Element (ustr ''Point'') [] None
          [Element (ustr ''coordinates'') []
             (opt_text (nl_norm (py_str lon @ ustr '','' @ py_str lat))) [] None] None] None"
  by (simp add: placemark_xml_element_def canon_text_def)

lemma xml_chars_append [simp]: "xml_chars (s @ t) = (xml_chars s \<and> xml_chars t)"
  by (simp add: xml_chars_def)

lemma parse_point:
  assumes "xml_chars t"
  shows "parse_element (Suc (Suc (Suc (Suc n))))
      (60 # ustr ''Point'' @ 62 #
        (leaf_bytes (ustr ''coordinates'') t @ 60 # 47 # ustr ''Point'' @ 62 # r)) =
    Some (Element (ustr ''Point'') [] None
      [Element (ustr ''coordinates'') [] (opt_text (nl_norm t)) [] None] None, r)"
  apply (subst parse_element.simps(2))
  apply (simp add: parse_start_tag_open parse_content_leaf assms parse_end_tag_ok
      del: parse_element.simps parse_content.simps)
  apply (simp add: parse_end_tag_ok)
  done

lemma xml_chars_lf [simp]: "xml_chars [10]" "xml_chars (ustr '','')"
  by (simp_all add: xml_chars_def is_xml_char_def ustr_def)

lemma parse_placemark8:
  assumes "xml_chars i" and "xml_chars d" and "xml_chars (py_str lon)" and "xml_chars (py_str lat)"
  shows "parse_element (Suc (Suc (Suc (Suc (Suc (Suc (Suc (Suc n))))))))
      (tostring (placemark_xml_element i d lon lat) @ r) =
    Some (canon (placemark_xml_element i d lon lat), r)"
  unfolding tostring_placemark_tags canon_placemark
  apply (subst parse_element.simps(2))
  apply (simp add: parse_start_tag_open parse_content_leaf assms parse_end_tag_ok
      del: parse_element.simps parse_content.simps)
  apply (subst parse_content_elem, simp)
  apply (simp add: parse_point assms del: parse_element.simps parse_content.simps)
  apply (simp add: parse_end_tag_ok)
  done

lemma parse_placemark:
  assumes "xml_chars i" and "xml_chars d" and "xml_chars (py_str lon)" and "xml_chars (py_str lat)"
    and "8 \<le> n"
  shows "parse_element n (tostring (placemark_xml_element i d lon lat) @ r) =
    Some (canon (placemark_xml_element i d lon lat), r)"
  using fuel_mono_element [OF _ parse_placemark8 [OF assms(1-4), of 0 r], of n] assms(5)
  by (simp add: eval_nat_numeral)

lemma parse_chardata_placemark [simp]:
  "parse_chardata k (tostring (placemark_xml_element i d lon lat) @ r) =
     Some ([], tostring (placemark_xml_element i d lon lat) @ r)"
  by (simp add: tostring_placemark_tags)

lemma parse_chardata_placemarks:
  "\<forall>p\<in>set ps. legal_placemark p \<Longrightarrow>
   parse_chardata k (concat (map tostring ps) @ 60 # r) =
     Some ([], concat (map tostring ps) @ 60 # r)"
  by (cases ps) (auto simp: legal_placemark_def)

lemma parse_content_placemark:
  assumes "xml_chars i" and "xml_chars d" and "xml_chars (py_str lon)" and "xml_chars (py_str lat)"
    and "8 \<le> n" and "parse_chardata 0 r = Some ([], r)"
  shows "parse_content (Suc n) (tostring (placemark_xml_element i d lon lat) @ r) =
    (case parse_content n r of
       None \<Rightarrow> None
     | Some (elems, s4) \<Rightarrow> Some (canon (placemark_xml_element i d lon lat) # elems, s4))"
proof -
  let ?p = "placemark_xml_element i d lon lat"
  obtain rest where rest: "tostring ?p @ r = 60 # ustr ''Placemark'' @ rest"
    using tostring_placemark_tags [of i d lon lat r] by blast
  have "parse_content (Suc n) (60 # ustr ''Placemark'' @ rest) =
    (case parse_content n r of
       None \<Rightarrow> None
     | Some (elems, s4) \<Rightarrow> Some (canon ?p # elems, s4))"
    apply (subst parse_content_elem, simp)
    apply (subst rest [symmetric])
    apply (subst parse_placemark [OF assms(1-5)])
    apply (simp add: assms(6) canon_placemark del: parse_content.simps split: option.split)
    done
  then show ?thesis by (simp add: rest)
qed

lemma parse_placemarks:
  assumes "\<forall>p\<in>set ps. legal_placemark p" and "length ps + 9 \<le> m"
  shows "parse_content m (concat (map tostring ps) @ 60 # 47 # r) =
    Some (map canon ps, 60 # 47 # r)"
  using assms
proof (induction ps arbitrary: m)
  case Nil
  then obtain m' where "m = Suc m'" by (cases m) auto
  then show ?case by simp
next
  case (Cons p ps)
  then obtain m' where m: "m = Suc m'" "length ps + 9 \<le> m'" by (cases m) auto
  from Cons.prems obtain i d lon lat where p: "p = placemark_xml_element i d lon lat"
    "xml_chars i" "xml_chars d" "xml_chars (py_str lon)" "xml_chars (py_str lat)"
    by (auto simp: legal_placemark_def)
  have legal: "\<forall>p\<in>set ps. legal_placemark p" using Cons.prems by simp
  have ih: "parse_content m' (concat (map tostring ps) @ 60 # 47 # r) =
      Some (map canon ps, 60 # 47 # r)"
    using Cons.IH [OF legal m(2)] .
  have "8 \<le> m'" using m(2) by simp
  then have "parse_content (Suc m')
      (tostring (placemark_xml_element i d lon lat) @ concat (map tostring ps) @ 60 # 47 # r) =
    Some (canon (placemark_xml_element i d lon lat) # map canon ps, 60 # 47 # r)"
    by (subst parse_content_placemark [OF p(2-5)])
      (simp_all add: parse_chardata_placemarks [OF legal] ih del: parse_content.simps)
  then show ?case by (simp add: p(1) m(1) del: parse_content.simps)
qed

lemma parse_start_tag_kml:
  \<open>parse_start_tag (ustr ''<kml xmlns="http://www.opengis.net/kml/2.2">'' @ r) =
     Some (ustr ''kml'', [(ustr ''xmlns'', ustr ''http://www.opengis.net/kml/2.2'')], False, r)\<close>
  by (simp add: parse_start_tag_def parse_name_def parse_attvalue.simps is_name_start_def
      is_name_char_def skip_space_def is_space_def is_xml_char_def ustr_def)

lemma enc_name_no_quote:
  assumes "is_enc_name enc" and "x \<in> set enc"
  shows "x \<noteq> 34"
proof -
  obtain c cs where enc: "enc = c # cs" "is_letter c"
    "list_all (\<lambda>x. is_letter x \<or> is_digit x \<or> x = 46 \<or> x = 95 \<or> x = 45) cs"
    using assms(1) by (cases enc) (auto simp: is_enc_name_def)
  then show ?thesis
    using assms(2) by (auto simp: list_all_iff is_letter_def is_digit_def)
qed


lemma parse_xmldecl_header:
  assumes "is_enc_name enc"
  shows \<open>parse_xmldecl (ustr ''<?xml version="1.0" encoding="'' @ enc @ ustr ''"?>'' @ r) = Some r\<close>
proof -
  have t: "takeWhile (\<lambda>x. x \<noteq> 34) (enc @ 34 # 63 # 62 # r) = enc"
    and d: "dropWhile (\<lambda>x. x \<noteq> 34) (enc @ 34 # 63 # 62 # r) = 34 # 63 # 62 # r"
    using enc_name_no_quote [OF assms] by (simp_all add: takeWhile_stop dropWhile_stop)
  show ?thesis
    by (simp add: parse_xmldecl_def parse_pseudo_attr_def has_pseudo_attr_def skip_space_def
        is_space_def is_version_num_def is_digit_def t d assms ustr_def)
qed

lemma strip_prefix_append [simp]: "strip_prefix p (p @ r) = Some r"
  by (induction p) simp_all

lemma length_concat_ge:
  "\<forall>x\<in>set xs. f x \<noteq> [] \<Longrightarrow> length xs \<le> length (concat (map f xs))"
proof (induction xs)
  case Nil
  then show ?case by simp
next
  case (Cons x xs)
  then have "1 \<le> length (f x)" by (cases "f x") auto
  with Cons show ?case by simp
qed

lemma tostring_not_Nil: "tostring e \<noteq> []"
  by (cases e) (simp add: tostring_def encode_ascii_Cons xmlcharrefreplace_def ustr_def)

lemma parse_kml_body:
  assumes "\<forall>p\<in>set ps. legal_placemark p" and "length ps + 12 \<le> m"
  shows \<open>parse_element m
      (ustr ''<kml xmlns="http://www.opengis.net/kml/2.2">'' @ ustr ''<Document>'' @
       concat (map tostring ps) @ ustr ''</Document></kml>'') =
    Some (kml_document (map canon ps), [])\<close>
proof -
  let ?rest = "concat (map tostring ps) @ 60 # 47 # ustr ''Document'' @ 62 # 60 # 47 # ustr ''kml'' @ [62]"
  define c where "c = m - 3"
  have m: "m = Suc (Suc (Suc c))" "length ps + 9 \<le> c"
    using assms(2) by (simp_all add: c_def)
  have kids: "parse_content c ?rest =
      Some (map canon ps, 60 # 47 # ustr ''Document'' @ 62 # 60 # 47 # ustr ''kml'' @ [62])"
    using parse_placemarks [OF assms(1) m(2)] .
  have doc: "parse_element (Suc c) (60 # ustr ''Document'' @ 62 # ?rest) =
      Some (Element (ustr ''Document'') [] None (map canon ps) None,
        60 # 47 # ustr ''kml'' @ [62])"
    by (simp add: parse_start_tag_open parse_chardata_placemarks [OF assms(1)] kids
        parse_end_tag_ok del: parse_content.simps)
  have content: "parse_content (Suc (Suc c)) (60 # ustr ''Document'' @ 62 # ?rest) =
      Some ([Element (ustr ''Document'') [] None (map canon ps) None],
        60 # 47 # ustr ''kml'' @ [62])"
    by (subst parse_content_elem, simp) (simp add: doc del: parse_element.simps)
  have "parse_element (Suc (Suc (Suc c)))
      (ustr ''<kml xmlns=\"http://www.opengis.net/kml/2.2\">'' @
       (60 # ustr ''Document'' @ 62 # ?rest)) =
    Some (kml_document (map canon ps), [])"
    apply (subst parse_element.simps(2))
    apply (subst parse_start_tag_kml)
    apply (simp add: content kml_document_def del: parse_element.simps parse_content.simps)
    using parse_end_tag_ok [of "ustr ''kml''" "[]"] apply simp
    done
  then show ?thesis by (simp add: m(1) ustr_def del: parse_element.simps)
qed

lemma xml_parse_document:
  assumes "is_enc_name enc" and "\<forall>p\<in>set ps. legal_placemark p"
  shows "xml_parse (header_text enc @ concat (map tostring ps) @ ustr ''</Document></kml>'') =
    Some (kml_document (map canon ps))"
proof -
  let ?body = \<open>ustr ''<kml xmlns="http://www.opengis.net/kml/2.2">'' @ ustr ''<Document>'' @
       concat (map tostring ps) @ ustr ''</Document></kml>''\<close>
  let ?decl = \<open>ustr ''<?xml version="1.0" encoding="'' @ enc @ ustr ''"?>''\<close>
  have doc: "header_text enc @ concat (map tostring ps) @ ustr ''</Document></kml>'' =
      ?decl @ ?body"
    by (simp add: header_text_def)
  have pre: "strip_prefix (ustr ''<?xml'') (?decl @ ?body) \<noteq> None"
    by (simp add: ustr_def)
  have decl: "parse_xmldecl (?decl @ ?body) = Some ?body"
    using parse_xmldecl_header [OF assms(1), of ?body] by simp
  have sp: "skip_space ?body = ?body"
    by (simp add: ustr_def)
  have "length ps \<le> length (concat (map tostring ps))"
    by (rule length_concat_ge) (simp add: tostring_not_Nil)
  then have "length ps + 12 \<le> length ?body"
    by (simp add: ustr_def)
  then have "parse_element (length ?body) ?body = Some (kml_document (map canon ps), [])"
    by (rule parse_kml_body [OF assms(2)])
  then show ?thesis
    unfolding doc xml_parse_def by (simp only: pre decl sp if_False option.case prod.case
        skip_space_simps if_True simp_thms)
qed

lemma placemark_of_legal:
  "record_texts_legal ev \<Longrightarrow> placemark_of ev = Some p \<Longrightarrow> legal_placemark p"
  by (auto simp: record_texts_legal_def placemark_of_def legal_placemark_def
      split: option.splits sum.splits)

lemma map_filter_legal:
  "\<forall>ev\<in>set evs. record_texts_legal ev \<Longrightarrow>
   \<forall>p\<in>set (List.map_filter placemark_of evs). legal_placemark p"
  by (fastforce simp: List.map_filter_def intro: placemark_of_legal)

lemma placemark_of_eligible:
  "record_texts_legal ev \<Longrightarrow> (placemark_of ev \<noteq> None) = eligible ev"
  by (auto simp: record_texts_legal_def placemark_of_def eligible_def
      split: option.splits sum.splits)

lemma length_map_filter_eligible:
  "\<forall>ev\<in>set evs. record_texts_legal ev \<Longrightarrow>
   length (List.map_filter placemark_of evs) = length (filter eligible evs)"
proof (induction evs)
  case Nil
  then show ?case by (simp add: List.map_filter_def)
next
  case (Cons ev evs)
  then show ?case
    using placemark_of_eligible [of ev]
    by (cases "placemark_of ev") auto
qed

lemma WriteEventBody_placemark_of:
  assumes "ascii_compatible (decode self)" and "record_texts_legal ev"
  shows "WriteEventBody self ev =
    Inr (self\<lparr>sink := sink self @ map tostring (List.map_filter placemark_of [ev])\<rparr>)"
proof (cases "placemark_of ev")
  case None
  with assms(2) have "latitude ev = None \<or> longitude ev = None"
    by (auto simp: record_texts_legal_def placemark_of_def split: option.splits sum.splits)
  then have "WriteEventBody self ev = Inr self"
    by (auto simp: WriteEventBody_def split: option.splits)
  with None show ?thesis by simp
next
  case (Some p)
  then obtain lat lon i where ev: "latitude ev = Some lat" "longitude ev = Some lon"
    "event_identifier ev = Inr i" "p = placemark_xml_element i (description ev) lon lat"
    by (auto simp: placemark_of_def split: option.splits sum.splits)
  from WriteEventBody_eligible [OF ev(1-3) assms(1)] Some ev(4)
  show ?thesis by simp
qed

lemma write_events_sink:
  assumes "ascii_compatible (decode self)" and "\<forall>ev\<in>set evs. record_texts_legal ev"
  shows "write_events self evs =
    Inr (self\<lparr>sink := sink self @ map tostring (List.map_filter placemark_of evs)\<rparr>)"
  using assms
proof (induction evs arbitrary: self)
  case Nil
  then show ?case by simp
next
  case (Cons ev evs)
  let ?self' = "self\<lparr>sink := sink self @ map tostring (List.map_filter placemark_of [ev])\<rparr>"
  have w: "WriteEventBody self ev = Inr ?self'"
    using WriteEventBody_placemark_of [of self ev] Cons.prems by simp
  have "write_events ?self' evs =
    Inr (?self'\<lparr>sink := sink ?self' @ map tostring (List.map_filter placemark_of evs)\<rparr>)"
    using Cons.IH [of ?self'] Cons.prems by simp
  then show ?case
    using w by (cases "placemark_of ev") simp_all
qed

lemma write_document_sink:
  assumes "ascii_compatible (decode self)" and "\<forall>ev\<in>set evs. record_texts_legal ev"
  shows "write_document self evs =
    Inr (self\<lparr>sink := sink self @ header_text (encoding self) #
      map tostring (List.map_filter placemark_of evs) @ [ustr ''</Document></kml>'']\<rparr>)"
proof -
  have h: "WriteHeader self = self\<lparr>sink := sink self @ [header_text (encoding self)]\<rparr>"
    by (simp add: WriteHeader_def WriteText_def header_text_def ustr_def)
  have "ascii_compatible (decode (WriteHeader self))"
    using assms(1) by (simp add: h)
  from write_events_sink [OF this assms(2)] show ?thesis
    by (simp add: write_document_def h WriteFooter_def WriteText_def)
qed



lemma kml0_fields [simp]:
  "encoding kml0 = ustr ''utf-8''" "decode kml0 = ascii_decode" "sink kml0 = []"
  by (simp_all add: kml0_def)

lemma is_enc_name_utf8: "is_enc_name (ustr ''utf-8'')"
  by (simp add: is_enc_name_def is_letter_def is_digit_def ustr_def)

lemmas parser_eval =
  xml_parse_def parse_xmldecl_def parse_pseudo_attr_def has_pseudo_attr_def
  is_version_num_def is_enc_name_def is_yes_no_def is_letter_def is_digit_def
  parse_start_tag_def parse_end_tag_def parse_name_def parse_chardata.simps
  parse_attvalue.simps decode_reference_def legal_char_def number_value_def digit_value_def
  is_hex_digit_def is_xml_char_def is_space_def is_name_start_def is_name_char_def
  skip_space_def opt_text_def ustr_def


lemma WriteEventBody_ctrl:
  "WriteEventBody kml0 event_ctrl = Inr (kml0\<lparr>sink :=
     [ustr ''<Placemark><name>E1</name><description>'' @ [1, 10] @
      ustr ''</description><Point><coordinates>-70.25,12.5</coordinates></Point></Placemark>'']\<rparr>)"
  using WriteEventBody_eligible [of event_ctrl float_12_5 float_m70_25 "ustr ''E1''" kml0]
  by (simp add: event_ctrl_def ascii_compatible_ascii_decode tostring_placemark xml_text_plain
      float_12_5_def float_m70_25_def ustr_def)

section \<open>The claims\<close>

text \<open>
  Claim C1 says that every sequence of records gives a document that parses.  A record
  whose description holds the control character U+0001 is written as it is, and the
  document is not well-formed XML; and for an eligible record whose identifier does not
  convert the calls end with the exception, before any footer.
\<close>

theorem control_character_document_counterexample:
  "document_text (write_document kml0 [event_ctrl]) =
     Some (header_text (ustr ''utf-8'') @
       ustr ''<Placemark><name>E1</name><description>'' @ [1, 10] @
       ustr ''</description><Point><coordinates>-70.25,12.5</coordinates></Point></Placemark>'' @
       ustr ''</Document></kml>'') \<and>
   xml_parse (header_text (ustr ''utf-8'') @
       ustr ''<Placemark><name>E1</name><description>'' @ [1, 10] @
       ustr ''</description><Point><coordinates>-70.25,12.5</coordinates></Point></Placemark>'' @
       ustr ''</Document></kml>'') = None \<and>
   write_document kml0 [event_bad] = Inl AttributeError"
proof -
  have h: "WriteHeader kml0 = kml0\<lparr>sink := [header_text (ustr ''utf-8'')]\<rparr>"
    by (simp add: WriteHeader_def WriteText_def header_text_def kml0_def ustr_def)
  have "WriteEventBody (kml0\<lparr>sink := [header_text (ustr ''utf-8'')]\<rparr>) event_ctrl =
    Inr (kml0\<lparr>sink := [header_text (ustr ''utf-8''),
      ustr ''<Placemark><name>E1</name><description>'' @ [1, 10] @
      ustr ''</description><Point><coordinates>-70.25,12.5</coordinates></Point></Placemark>'']\<rparr>)"
    using WriteEventBody_ctrl
    by (simp add: WriteEventBody_def event_ctrl_def WriteText_def kml0_def split: sum.splits)
  then have "document_text (write_document kml0 [event_ctrl]) =
     Some (header_text (ustr ''utf-8'') @
       ustr ''<Placemark><name>E1</name><description>'' @ [1, 10] @
       ustr ''</description><Point><coordinates>-70.25,12.5</coordinates></Point></Placemark>'' @
       ustr ''</Document></kml>'')"
    by (simp add: document_text_def write_document_def h WriteFooter_def WriteText_def)
  moreover have "xml_parse (header_text (ustr ''utf-8'') @
       ustr ''<Placemark><name>E1</name><description>'' @ [1, 10] @
       ustr ''</description><Point><coordinates>-70.25,12.5</coordinates></Point></Placemark>'' @
       ustr ''</Document></kml>'') = None"
    by (simp add: header_text_def parser_eval)
  moreover have "write_document kml0 [event_bad] = Inl AttributeError"
    by (simp add: write_document_def WriteEventBody_def event_bad_def)
  ultimately show ?thesis by simp
qed

text \<open>
  Claim C1, as amended.  When the texts of every eligible record (the identifier, which
  converts, the description and the two coordinates) hold only characters that XML 1.0
  allows, the encoding name is a legal one and its codec agrees with ASCII, then
  \<open>WriteHeader\<close>, \<open>WriteEventBody\<close> for each record in order and \<open>WriteFooter\<close> write
  a text that parses as one document: the root \<open>kml\<close> with the single child \<open>Document\<close>,
  whose children are the placemarks of the eligible records, as many and in their order.
  For no record at all the \<open>Document\<close> is empty.
\<close>

theorem written_document_parses:
  assumes "ascii_compatible (decode self)" and "is_enc_name (encoding self)"
    and "\<forall>ev\<in>set evs. record_texts_legal ev"
  shows "\<exists>texts placemarks.
      write_document self evs = Inr (self\<lparr>sink := sink self @ texts\<rparr>) \<and>
      xml_parse (concat texts) =
        Some (Element (ustr ''kml'') [(ustr ''xmlns'', ustr ''http://www.opengis.net/kml/2.2'')] None
          [Element (ustr ''Document'') [] None placemarks None] None) \<and>
      placemarks = map canon (List.map_filter placemark_of evs) \<and>
      length placemarks = length (filter eligible evs) \<and>
      (\<forall>p\<in>set placemarks. tag p = ustr ''Placemark'')"
proof -
  let ?ps = "List.map_filter placemark_of evs"
  let ?texts = "header_text (encoding self) # map tostring ?ps @ [ustr ''</Document></kml>'']"
  have legal: "\<forall>p\<in>set ?ps. legal_placemark p"
    using assms(3) by (rule map_filter_legal)
  have w: "write_document self evs = Inr (self\<lparr>sink := sink self @ ?texts\<rparr>)"
    using assms(1,3) by (rule write_document_sink)
  have "xml_parse (concat ?texts) = Some (kml_document (map canon ?ps))"
    using xml_parse_document [OF assms(2) legal] by simp
  then have p: "xml_parse (concat ?texts) =
        Some (Element (ustr ''kml'') [(ustr ''xmlns'', ustr ''http://www.opengis.net/kml/2.2'')] None
          [Element (ustr ''Document'') [] None (map canon ?ps) None] None)"
    by (simp add: kml_document_def)
  have l: "length (map canon ?ps) = length (filter eligible evs)"
    using length_map_filter_eligible [OF assms(3)] by simp
  have t: "\<forall>p\<in>set (map canon ?ps). tag p = ustr ''Placemark''"
    using legal by (auto simp: legal_placemark_def canon_placemark)
  from w p l t show ?thesis by blast
qed

theorem written_document_parses_witness:
  "ascii_compatible (decode kml0) \<and> is_enc_name (encoding kml0) \<and>
   record_texts_legal event_E1 \<and> record_texts_legal event_nogeo \<and>
   record_texts_legal event_accent \<and>
   (\<exists>texts placemarks.
      write_document kml0 [event_E1, event_nogeo, event_accent] =
        Inr (kml0\<lparr>sink := sink kml0 @ texts\<rparr>) \<and>
      xml_parse (concat texts) =
        Some (Element (ustr ''kml'') [(ustr ''xmlns'', ustr ''http://www.opengis.net/kml/2.2'')] None
          [Element (ustr ''Document'') [] None placemarks None] None) \<and>
      map tag placemarks = [ustr ''Placemark'', ustr ''Placemark'']) \<and>
   (\<exists>texts.
      write_document kml0 [] = Inr (kml0\<lparr>sink := sink kml0 @ texts\<rparr>) \<and>
      xml_parse (concat texts) =
        Some (Element (ustr ''kml'') [(ustr ''xmlns'', ustr ''http://www.opengis.net/kml/2.2'')] None
          [Element (ustr ''Document'') [] None [] None] None))"
proof -
  have a: "ascii_compatible (decode kml0)" and e: "is_enc_name (encoding kml0)"
    by (simp_all add: ascii_compatible_ascii_decode is_enc_name_utf8)
  have l: "\<forall>ev\<in>set [event_E1, event_nogeo, event_accent]. record_texts_legal ev"
    by (simp add: record_texts_legal_def event_E1_def event_nogeo_def event_accent_def
        xml_chars_def is_xml_char_def float_12_5_def float_m70_25_def ustr_def)
  have l0: "\<forall>ev\<in>set ([] :: event_record list). record_texts_legal ev"
    by simp
  have n: "length (filter eligible [event_E1, event_nogeo, event_accent]) = 2"
    by (simp add: eligible_def event_E1_def event_nogeo_def event_accent_def)
  from written_document_parses [OF a e l] obtain texts placemarks where w:
      "write_document kml0 [event_E1, event_nogeo, event_accent] =
        Inr (kml0\<lparr>sink := sink kml0 @ texts\<rparr>)"
      "xml_parse (concat texts) =
        Some (Element (ustr ''kml'') [(ustr ''xmlns'', ustr ''http://www.opengis.net/kml/2.2'')] None
          [Element (ustr ''Document'') [] None placemarks None] None)"
      "length placemarks = length (filter eligible [event_E1, event_nogeo, event_accent])"
      "\<forall>p\<in>set placemarks. tag p = ustr ''Placemark''"
    by blast
  from w(3) n obtain p1 p2 where "placemarks = [p1, p2]"
    by (cases placemarks; cases "tl placemarks") auto
  with w(4) have m: "map tag placemarks = [ustr ''Placemark'', ustr ''Placemark'']"
    by simp
  have "\<exists>texts placemarks.
      write_document kml0 [event_E1, event_nogeo, event_accent] =
        Inr (kml0\<lparr>sink := sink kml0 @ texts\<rparr>) \<and>
      xml_parse (concat texts) =
        Some (Element (ustr ''kml'') [(ustr ''xmlns'', ustr ''http://www.opengis.net/kml/2.2'')] None
          [Element (ustr ''Document'') [] None placemarks None] None) \<and>
      map tag placemarks = [ustr ''Placemark'', ustr ''Placemark'']"
    by (rule exI [of _ texts], rule exI [of _ placemarks]) (simp only: w(1,2) m simp_thms)
  moreover from written_document_parses [OF a e l0]
  have "\<exists>texts.
      write_document kml0 [] = Inr (kml0\<lparr>sink := sink kml0 @ texts\<rparr>) \<and>
      xml_parse (concat texts) =
        Some (Element (ustr ''kml'') [(ustr ''xmlns'', ustr ''http://www.opengis.net/kml/2.2'')] None
          [Element (ustr ''Document'') [] None [] None] None)"
    by (elim exE conjE) (intro exI conjI, assumption, simp)
  ultimately show ?thesis using a e l by simp
qed

text \<open>
  Claim C2.  A record whose latitude is \<open>None\<close> (or absent) or whose longitude is \<open>None\<close>
  (or absent) makes \<open>WriteEventBody\<close> return normally with the module unchanged: nothing is
  written to the sink and nothing is raised, even when the identifier of the record could
  not be converted.
\<close>

theorem WriteEventBody_missing_coordinate:
  "latitude ev = None \<or> longitude ev = None \<Longrightarrow> WriteEventBody self ev = Inr self"
  by (auto simp: WriteEventBody_def split: option.splits)

theorem WriteEventBody_missing_coordinate_witness:
  "(latitude event_nogeo = None \<or> longitude event_nogeo = None) \<and>
   WriteEventBody kml0 event_nogeo = Inr kml0"
  using WriteEventBody_missing_coordinate [of event_nogeo kml0]
  by (simp add: event_nogeo_def)








text \<open>
  Claim C6.  \<open>WriteHeader\<close> makes one write: the XML declaration naming the configured
  encoding, the opening \<open>kml\<close> element with the KML 2.2 namespace and the opening
  \<open>Document\<close> element, with nothing between them and nothing else.
\<close>

theorem WriteHeader_single_write:
  \<open>WriteHeader self = self\<lparr>sink := sink self @
     [ustr ''<?xml version="1.0" encoding="'' @ encoding self @ ustr ''"?>'' @
      ustr ''<kml xmlns="http://www.opengis.net/kml/2.2">'' @ ustr ''<Document>'']\<rparr>\<close>
  by (simp add: WriteHeader_def WriteText_def ustr_def)

text \<open>
  Claim C7 says that a second \<open>WriteHeader\<close>, or a \<open>WriteFooter\<close> before any
  \<open>WriteHeader\<close>, raises a framing error and writes nothing.  The module keeps no flag:
  on a fresh module the second \<open>WriteHeader\<close> writes the header again, and \<open>WriteFooter\<close>
  writes the footer.
\<close>

theorem framing_misuse_counterexample:
  "sink (WriteHeader (WriteHeader kml0)) = sink (WriteHeader kml0) @ [header_text (ustr ''utf-8'')] \<and>
   sink (WriteFooter kml0) = [ustr ''</Document></kml>'']"
  by (simp add: WriteHeader_def WriteFooter_def WriteText_def kml0_def header_text_def ustr_def)

text \<open>
  Claim C7, as amended.  \<open>WriteHeader\<close> and \<open>WriteFooter\<close> are unconditional: in every
  state each call appends its text to the sink and changes nothing else, so two calls of
  \<open>WriteHeader\<close> write the header twice and \<open>WriteFooter\<close> writes the footer whether or
  not a header was written.
\<close>

theorem framing_calls_always_write:
  "WriteHeader (WriteHeader self) =
     self\<lparr>sink := sink self @ [header_text (encoding self), header_text (encoding self)]\<rparr> \<and>
   WriteFooter self = self\<lparr>sink := sink self @ [ustr ''</Document></kml>'']\<rparr>"
  by (simp add: WriteHeader_def WriteFooter_def WriteText_def header_text_def ustr_def)








end
